theory Spec2Isabelle
  imports Complex_Main "HOL-Library.AList"
begin

section \<open>Python values, documents and errors\<close>

text \<open>
  A database document is a Python dict from field names to values. It is kept as an
  association list: \<open>map_of\<close> is the lookup, \<open>AList.update\<close> is \<open>d[k] = v\<close> (the
  entry is replaced in place when the key is there, appended otherwise).
\<close>

datatype val = VNone | VStr string | VInt int | VList "val list"

type_synonym doc = "(string \<times> val) list"

datatype pyerr = KeyError | IndexError | TypeError | ValueError | AttributeError
  | ExternalError | InvalidOperation | SystemExit | UnboundLocalError

text \<open>\<open>d[k]\<close>: raises KeyError when the key is absent.\<close>

definition getitem :: "doc \<Rightarrow> string \<Rightarrow> pyerr + val" where
  "getitem d k = (case map_of d k of None \<Rightarrow> Inl KeyError | Some v \<Rightarrow> Inr v)"

definition setitem :: "doc \<Rightarrow> string \<Rightarrow> val \<Rightarrow> doc" where
  "setitem d k v = AList.update k v d"

text \<open>\<open>v[i]\<close> for a non-negative literal index: lists and strings can be indexed.\<close>

fun index :: "val \<Rightarrow> nat \<Rightarrow> pyerr + val" where
  "index (VList xs) i = (if i < length xs then Inr (xs ! i) else Inl IndexError)"
| "index (VStr s) i = (if i < length s then Inr (VStr [s ! i]) else Inl IndexError)"
| "index VNone i = Inl TypeError"
| "index (VInt n) i = Inl TypeError"

fun join :: "string \<Rightarrow> string list \<Rightarrow> string" where
  "join sep [] = []"
| "join sep [x] = x"
| "join sep (x # y # zs) = x @ sep @ join sep (y # zs)"

fun strings_of :: "val list \<Rightarrow> string list option" where
  "strings_of [] = Some []"
| "strings_of (VStr s # vs) = map_option ((#) s) (strings_of vs)"
| "strings_of (v # vs) = None"

text \<open>\<open>' '.join(v)\<close>: a list of strings or a string (joined character by character).\<close>

fun join_val :: "val \<Rightarrow> pyerr + string" where
  "join_val (VList xs) =
     (case strings_of xs of None \<Rightarrow> Inl TypeError | Some ss \<Rightarrow> Inr (join '' '' ss))"
| "join_val (VStr s) = Inr (join '' '' (map (\<lambda>c. [c]) s))"
| "join_val VNone = Inl TypeError"
| "join_val (VInt n) = Inl TypeError"

text \<open>\<open>'{:^16}'.format(v)\<close>: strings and integers accept the alignment; None and lists
  raise TypeError.\<close>

fun format_centred :: "val \<Rightarrow> pyerr + unit" where
  "format_centred (VStr s) = Inr ()"
| "format_centred (VInt n) = Inr ()"
| "format_centred VNone = Inl TypeError"
| "format_centred (VList xs) = Inl TypeError"

text \<open>\<open>doc['text_id'][0] + ' ' + doc['text_id'][1]\<close>, left to right.\<close>

definition text_id_label :: "doc \<Rightarrow> pyerr + string" where
  "text_id_label d =
     (case getitem d ''text_id'' of
        Inl e \<Rightarrow> Inl e
      | Inr t \<Rightarrow>
          (case index t 0 of
             Inl e \<Rightarrow> Inl e
           | Inr (VStr a) \<Rightarrow>
               (case index t 1 of
                  Inl e \<Rightarrow> Inl e
                | Inr (VStr b) \<Rightarrow> Inr (a @ '' '' @ b)
                | Inr _ \<Rightarrow> Inl TypeError)
           | Inr _ \<Rightarrow> Inl TypeError))"

text \<open>\<open>'Failed for' + ' '.join(doc['text_id'])\<close>, the message of the handler.\<close>

definition failure_message :: "doc \<Rightarrow> pyerr + string" where
  "failure_message d =
     (case getitem d ''text_id'' of
        Inl e \<Rightarrow> Inl e
      | Inr t \<Rightarrow> (case join_val t of Inl e \<Rightarrow> Inl e | Inr s \<Rightarrow> Inr (''Failed for'' @ s)))"

section \<open>The refiner (refine.py)\<close>

text \<open>
  The state of a \<open>Refiner\<close> object. \<open>cursor\<close> is the list of document objects;
  \<open>diff_cursor\<close> holds references to some of them, kept as positions in \<open>cursor\<close>:
  the source appends the object itself, so a later \<open>doc['space_group'] = sg\<close> is seen
  through \<open>diff_cursor\<close> as well. \<open>debug\<close> is the truth value of \<open>args.get('debug')\<close>.
  The documents of one cursor are distinct objects.
\<close>

record refiner =
  cursor :: "doc list"
  diff_cursor :: "nat list"
  mode :: string
  changed_count :: nat
  failed_count :: nat
  debug :: bool
  field :: string

definition diff_docs :: "refiner \<Rightarrow> doc list" where
  "diff_docs r = map (\<lambda>i. cursor r ! i) (diff_cursor r)"

text \<open>
  The space-group library is outside the repository: \<open>spglib\<close> stands for
  \<open>spg.get_spacegroup(doc2spg(doc), symprec=symprec).split(' ')[0]\<close>, which gives a
  symbol or raises.
\<close>

type_synonym spglib = "doc \<Rightarrow> pyerr + string"

text \<open>
  The body of the \<open>try\<close> in \<open>Refiner.symmetry\<close> for the document at position \<open>ind\<close>.
  The result is the exception raised (if any) and the state reached at that point. In
  the mode \<open>'display'\<close> the line for the document is formatted and printed before the
  new group is stored; the printing functions themselves (\<open>print\<close>, \<open>print_notify\<close>,
  \<open>print_warning\<close>, \<open>print_failure\<close>) and the imports at the head of the method are
  taken not to raise.
\<close>

definition symmetry_try :: "spglib \<Rightarrow> nat \<Rightarrow> doc \<Rightarrow> refiner \<Rightarrow> pyerr option \<times> refiner" where
  "symmetry_try sp ind d r =
     (case sp d of
        Inl e \<Rightarrow> (Some e, r)
      | Inr sg \<Rightarrow>
          (case getitem d ''space_group'' of
             Inl e \<Rightarrow> (Some e, r)
           | Inr old \<Rightarrow>
               if VStr sg \<noteq> old then
                 let r1 = r\<lparr>changed_count := changed_count r + 1,
                             diff_cursor := diff_cursor r @ [ind]\<rparr>;
                     r2 = r1\<lparr>cursor := (cursor r1)[ind := setitem d ''space_group'' (VStr sg)]\<rparr>
                 in if mode r = ''display'' then
                      (case text_id_label d of
                         Inl e \<Rightarrow> (Some e, r1)
                       | Inr l \<Rightarrow>
                           (case format_centred old of
                              Inl e \<Rightarrow> (Some e, r1)
                            | Inr u \<Rightarrow> (None, r2)))
                    else (None, r2)
               else
                 if mode r = ''display'' then
                   (case text_id_label d of
                      Inl e \<Rightarrow> (Some e, r)
                    | Inr l \<Rightarrow>
                        (case format_centred old of
                           Inl e \<Rightarrow> (Some e, r)
                         | Inr u \<Rightarrow> (None, r)))
                 else (None, r)))"

text \<open>The \<open>except:\<close> clause of \<open>Refiner.symmetry\<close>; its own message can raise.\<close>

definition symmetry_except :: "doc \<Rightarrow> refiner \<Rightarrow> pyerr option \<times> refiner" where
  "symmetry_except d r =
     (let r1 = r\<lparr>failed_count := failed_count r + 1\<rparr>
      in if debug r then
           (case failure_message d of Inl e \<Rightarrow> (Some e, r1) | Inr s \<Rightarrow> (None, r1))
         else (None, r1))"

text \<open>\<open>for ind, doc in enumerate(self.cursor)\<close>: an exception that leaves the handler
  ends the loop.\<close>

fun symmetry_loop :: "spglib \<Rightarrow> (nat \<times> doc) list \<Rightarrow> refiner \<Rightarrow> pyerr option \<times> refiner" where
  "symmetry_loop sp [] r = (None, r)"
| "symmetry_loop sp ((ind, d) # rest) r =
     (case symmetry_try sp ind d r of
        (None, r1) \<Rightarrow> symmetry_loop sp rest r1
      | (Some e, r1) \<Rightarrow>
          (case symmetry_except d r1 of
             (None, r2) \<Rightarrow> symmetry_loop sp rest r2
           | (Some e2, r2) \<Rightarrow> (Some e2, r2)))"

definition symmetry :: "spglib \<Rightarrow> refiner \<Rightarrow> pyerr option \<times> refiner" where
  "symmetry sp r = symmetry_loop sp (enumerate 0 (cursor r)) r"

text \<open>The two lines \<open>__init__\<close> prints after the task: changed and failed, each out of
  the number of documents.\<close>

definition report :: "refiner \<Rightarrow> (nat \<times> nat) \<times> (nat \<times> nat)" where
  "report r = ((changed_count r, length (cursor r)), (failed_count r, length (cursor r)))"

section \<open>The document store (pymongo, outside the repository)\<close>

text \<open>
  What \<open>update_docs\<close> sends is a list of \<open>pymongo.UpdateOne(filter, {'$set': ...})\<close>
  requests. A filter is a dict from field names to conditions: a plain value (the
  field equals it) or \<open>{'$exists': b}\<close>. The store's side is MongoDB's documented
  behaviour: \<open>UpdateOne\<close> changes the first document that matches the filter, if
  there is one, and \<open>bulk_write\<close> runs the requests in order and refuses an empty list
  (\<open>InvalidOperation\<close>). \<open>bulk_writes\<close> records every call that reached the store.
\<close>

datatype cond = Eq val | Exists bool

type_synonym query = "(string \<times> cond) list"

datatype request = UpdateOne query "(string \<times> val) list"

record collection =
  documents :: "doc list"
  bulk_writes :: "request list list"

fun holds :: "doc \<Rightarrow> string \<times> cond \<Rightarrow> bool" where
  "holds d (k, Eq v) = (map_of d k = Some v)"
| "holds d (k, Exists b) = ((map_of d k \<noteq> None) = b)"

definition matches :: "doc \<Rightarrow> query \<Rightarrow> bool" where
  "matches d q = list_all (holds d) q"

definition apply_set :: "(string \<times> val) list \<Rightarrow> doc \<Rightarrow> doc" where
  "apply_set sets d = fold (\<lambda>(k, v) d'. setitem d' k v) sets d"

fun update_one :: "request \<Rightarrow> doc list \<Rightarrow> doc list" where
  "update_one (UpdateOne q sets) [] = []"
| "update_one (UpdateOne q sets) (d # ds) =
     (if matches d q then apply_set sets d # ds else d # update_one (UpdateOne q sets) ds)"

definition bulk_write :: "request list \<Rightarrow> collection \<Rightarrow> pyerr + collection" where
  "bulk_write requests c =
     (if requests = [] then Inl InvalidOperation
      else Inr (c\<lparr>documents := fold update_one requests (documents c),
                  bulk_writes := bulk_writes c @ [requests]\<rparr>))"

section \<open>Writing the changes back (\<open>Refiner.update_docs\<close>)\<close>

text \<open>A \<open>for\<close> loop that appends one result per element; the first raise ends it.\<close>

fun collect :: "('a \<Rightarrow> pyerr + 'b) \<Rightarrow> 'a list \<Rightarrow> pyerr + 'b list" where
  "collect f [] = Inr []"
| "collect f (x # xs) =
     (case f x of
        Inl e \<Rightarrow> Inl e
      | Inr y \<Rightarrow> (case collect f xs of Inl e \<Rightarrow> Inl e | Inr ys \<Rightarrow> Inr (y # ys)))"

text \<open>\<open>UpdateOne({'_id': doc['_id'], field: {'$exists': False}}, {'$set': {field: doc[field]}})\<close>\<close>

definition set_request :: "string \<Rightarrow> doc \<Rightarrow> pyerr + request" where
  "set_request f d =
     (case getitem d ''_id'' of
        Inl e \<Rightarrow> Inl e
      | Inr i \<Rightarrow>
          (case getitem d f of
             Inl e \<Rightarrow> Inl e
           | Inr v \<Rightarrow> Inr (UpdateOne (AList.update f (Exists False) [(''_id'', Eq i)]) [(f, v)])))"

text \<open>\<open>UpdateOne({'_id': doc['_id']}, {'$set': {field: doc[field]}})\<close>\<close>

definition overwrite_request :: "string \<Rightarrow> doc \<Rightarrow> pyerr + request" where
  "overwrite_request f d =
     (case getitem d ''_id'' of
        Inl e \<Rightarrow> Inl e
      | Inr i \<Rightarrow>
          (case getitem d f of
             Inl e \<Rightarrow> Inl e
           | Inr v \<Rightarrow> Inr (UpdateOne [(''_id'', Eq i)] [(f, v)])))"

definition update_docs_requests :: "refiner \<Rightarrow> pyerr + request list" where
  "update_docs_requests r =
     (if mode r = ''set'' then collect (set_request (field r)) (diff_docs r)
      else if mode r = ''overwrite'' then collect (overwrite_request (field r)) (diff_docs r)
      else Inr [])"

definition update_docs :: "refiner \<Rightarrow> collection \<Rightarrow> pyerr + collection" where
  "update_docs r c =
     (case update_docs_requests r of Inl e \<Rightarrow> Inl e | Inr requests \<Rightarrow> bulk_write requests c)"

section \<open>\<open>Refiner.__init__\<close>\<close>

definition possible_tasks :: "string list" where
  "possible_tasks =
     [''sym'', ''spg'', ''substruc'', ''sub'', ''elem_set'', ''ratios'', ''tag'', ''doi'']"

definition possible_modes :: "string list" where
  "possible_modes = [''display'', ''overwrite'', ''set'']"

text \<open>The checks at the head of \<open>__init__\<close>: the mode it goes on with, or an exit.\<close>

definition check_args :: "collection option \<Rightarrow> string option \<Rightarrow> string \<Rightarrow> pyerr + string" where
  "check_args coll task m =
     (let m' = (if m \<notin> set possible_modes then ''display'' else m)
      in if coll = None \<and> m' \<in> set [''overwrite'', ''set''] then Inl SystemExit
         else case task of
                None \<Rightarrow> Inl SystemExit
              | Some t \<Rightarrow>
                  if t \<notin> set possible_tasks then Inl SystemExit
                  else if t = ''tag'' \<and> m' = ''set'' then Inl SystemExit
                  else Inr m')"

text \<open>The branch of \<open>__init__\<close> for the tasks \<open>'spg'\<close> and \<open>'sym'\<close>: the field is
  assigned once \<open>symmetry\<close> has returned.\<close>

definition task_spg :: "spglib \<Rightarrow> refiner \<Rightarrow> pyerr option \<times> refiner" where
  "task_spg sp r =
     (case symmetry sp r of
        (None, r1) \<Rightarrow> (None, r1\<lparr>field := ''space_group''\<rparr>)
      | (Some e, r1) \<Rightarrow> (Some e, r1))"

text \<open>The end of \<open>__init__\<close>: \<open>update_docs\<close> is called in the modes \<open>'set'\<close> and
  \<open>'overwrite'\<close> when something changed, and not otherwise.\<close>

definition finish :: "refiner \<Rightarrow> collection option \<Rightarrow> pyerr + collection option" where
  "finish r coll =
     (if mode r \<in> set [''set'', ''overwrite''] \<and> changed_count r > 0 then
        (case coll of
           None \<Rightarrow> Inl AttributeError
         | Some c \<Rightarrow> (case update_docs r c of Inl e \<Rightarrow> Inl e | Inr c' \<Rightarrow> Inr (Some c')))
      else Inr coll)"

text \<open>
  \<open>__init__\<close> as a whole. The tasks other than the space-group one are a parameter
  (\<open>others\<close>, by task name): they work on the refiner alone and never on the
  collection. The attribute \<open>field\<close> does not exist before the task has run; the empty
  string stands for that. An exception that leaves the task leaves \<open>__init__\<close> too. The
  result is the final refiner, the two printed counts and the collection.
\<close>

definition Refiner_init ::
  "spglib \<Rightarrow> (string \<Rightarrow> refiner \<Rightarrow> pyerr option \<times> refiner) \<Rightarrow> doc list \<Rightarrow>
   collection option \<Rightarrow> string option \<Rightarrow> string \<Rightarrow> bool \<Rightarrow>
   pyerr + (refiner \<times> ((nat \<times> nat) \<times> (nat \<times> nat)) \<times> collection option)" where
  "Refiner_init sp others cur coll task m dbg =
     (case check_args coll task m of
        Inl e \<Rightarrow> Inl e
      | Inr m' \<Rightarrow>
          (let r0 = \<lparr>cursor = cur, diff_cursor = [], mode = m', changed_count = 0,
                     failed_count = 0, debug = dbg, field = []\<rparr>;
               t = the task
           in case (if t = ''spg'' \<or> t = ''sym'' then task_spg sp r0 else others t r0) of
                (Some e, r1) \<Rightarrow> Inl e
              | (None, r1) \<Rightarrow>
                  (case finish r1 coll of
                     Inl e \<Rightarrow> Inl e
                   | Inr coll' \<Rightarrow> Inr (r1, report r1, coll'))))"

section \<open>Notions used in the statements about the refiner\<close>

text \<open>Whether the \<open>try\<close> body of \<open>symmetry\<close> raises for a document: this depends on the
  library, the mode and the document, not on the counters.\<close>

definition try_raises :: "spglib \<Rightarrow> string \<Rightarrow> doc \<Rightarrow> bool" where
  "try_raises sp m d =
     (case sp d of
        Inl e \<Rightarrow> True
      | Inr sg \<Rightarrow>
          (case getitem d ''space_group'' of
             Inl e \<Rightarrow> True
           | Inr old \<Rightarrow>
               m = ''display'' \<and> (isl (text_id_label d) \<or> isl (format_centred old))))"

definition has_id :: "val \<Rightarrow> doc \<Rightarrow> bool" where
  "has_id i d = (map_of d ''_id'' = Some i)"

text \<open>The shape of the requests of the two modes.\<close>

definition is_set_request :: "string \<Rightarrow> request \<Rightarrow> bool" where
  "is_set_request f rq =
     (\<exists>i v. rq = UpdateOne (AList.update f (Exists False) [(''_id'', Eq i)]) [(f, v)])"

definition overwrite_of :: "string \<Rightarrow> val \<times> val \<Rightarrow> request" where
  "overwrite_of f p = UpdateOne [(''_id'', Eq (fst p))] [(f, snd p)]"

definition id_and_value :: "string \<Rightarrow> doc \<Rightarrow> val \<times> val" where
  "id_and_value f d = (the (map_of d ''_id''), the (map_of d f))"

text \<open>A space-group library for the examples: it needs the cell of the document, as
  \<open>doc2spg\<close> does, and finds the group \<open>Fm-3m\<close>.\<close>

definition needs_cell :: spglib where
  "needs_cell d =
     (case map_of d ''lattice_cart'' of None \<Rightarrow> Inl KeyError | Some v \<Rightarrow> Inr ''Fm-3m'')"

text \<open>Example documents: one without cell and \<open>text_id\<close>, one complete.\<close>

definition bare_doc :: doc where
  "bare_doc = [(''_id'', VInt 1), (''space_group'', VStr ''P1'')]"

definition full_doc :: doc where
  "full_doc =
     [(''_id'', VInt 2), (''text_id'', VList [VStr ''a'', VStr ''b'']),
      (''space_group'', VStr ''P1''), (''lattice_cart'', VNone)]"

definition refined_doc :: doc where
  "refined_doc =
     [(''_id'', VInt 2), (''text_id'', VList [VStr ''a'', VStr ''b'']),
      (''space_group'', VStr ''Fm-3m''), (''lattice_cart'', VNone)]"

definition example_refiner :: "string \<Rightarrow> bool \<Rightarrow> refiner" where
  "example_refiner m dbg =
     \<lparr>cursor = [bare_doc, full_doc], diff_cursor = [], mode = m, changed_count = 0,
      failed_count = 0, debug = dbg, field = []\<rparr>"

text \<open>The refiner after a space-group run that changed \<open>full_doc\<close>, and a store that
  holds the two documents as they were.\<close>

definition changed_refiner :: "string \<Rightarrow> refiner" where
  "changed_refiner m =
     \<lparr>cursor = [bare_doc, refined_doc], diff_cursor = [1], mode = m, changed_count = 1,
      failed_count = 1, debug = False, field = ''space_group''\<rparr>"

definition example_store :: collection where
  "example_store = \<lparr>documents = [bare_doc, full_doc], bulk_writes = []\<rparr>"

section \<open>The colour set-up of \<open>plot_spectral\<close> (spectral_plotting.py)\<close>

text \<open>
  What the keyword arguments of \<open>plot_spectral\<close> can hold, as far as the function looks:
  \<open>None\<close>, a truth value, a number, a string, a list or a tuple (of colours, for the
  entries read here) or an object of any other type that cannot be indexed, such as a
  colormap object. The type \<open>'c\<close> is that of a colour.
\<close>

datatype 'c kwval =
  KNone | KBool bool | KInt int | KStr string | KList "'c list" | KTuple "'c list" | KOther

type_synonym 'c kwargs = "(string \<times> 'c kwval) list"

text \<open>
  \<open>matplotlib.pyplot.rcParams\<close> is one dict for the whole process, shared by every
  plotting call. The entry read and written here is \<open>'axes.prop_cycle'\<close>, a
  \<open>Cycler\<close>: property names with their lists of values.
\<close>

datatype 'c rcval = Cycler "(string \<times> 'c list) list" | RcOther

type_synonym 'c rcParams = "(string \<times> 'c rcval) list"

text \<open>\<open>cycler('color', colours)\<close>\<close>

definition cycler :: "string \<Rightarrow> 'c list \<Rightarrow> 'c rcval" where
  "cycler k vs = Cycler [(k, vs)]"

text \<open>\<open>list(plt.rcParams['axes.prop_cycle'].by_key()['color'])\<close>, as \<open>plot_spectral\<close> and
  \<open>_get_projector_info\<close> read it.\<close>

definition prop_cycle_colours :: "'c rcParams \<Rightarrow> pyerr + 'c list" where
  "prop_cycle_colours rc =
     (case map_of rc ''axes.prop_cycle'' of
        None \<Rightarrow> Inl KeyError
      | Some RcOther \<Rightarrow> Inl AttributeError
      | Some (Cycler kv) \<Rightarrow>
          (case map_of kv ''color'' of None \<Rightarrow> Inl KeyError | Some cs \<Rightarrow> Inr cs))"

text \<open>\<open>plt.rcParams['axes.prop_cycle'] = cycler('color', colours)\<close>. matplotlib validates
  what is assigned: \<open>valid\<close> says which colours it accepts, and a list with any other
  raises ValueError and leaves the setting as it was.\<close>

definition set_prop_cycle :: "('c \<Rightarrow> bool) \<Rightarrow> 'c list \<Rightarrow> 'c rcParams \<Rightarrow> pyerr + 'c rcParams" where
  "set_prop_cycle valid cs rc =
     (if list_all valid cs then Inr (AList.update ''axes.prop_cycle'' (cycler ''color'' cs) rc)
      else Inl ValueError)"

definition prop_defaults :: "'c kwargs" where
  "prop_defaults =
     [(''plot_bandstructure'', KBool True), (''plot_dos'', KBool True), (''plot_pdis'', KBool True),
      (''phonons'', KBool False), (''gap'', KBool False),
      (''colour_by_seed'', KBool False), (''external_efermi'', KNone),
      (''labels'', KNone), (''cmap'', KNone), (''band_colour'', KStr ''occ''),
      (''n_colours'', KInt 4), (''spin_only'', KNone), (''figsize'', KNone),
      (''no_stacked_pdos'', KBool False), (''preserve_kspace_distance'', KBool False),
      (''band_reorder'', KNone), (''title'', KNone),
      (''verbosity'', KInt 0), (''highlight_bands'', KNone), (''pdos_hide_tot'', KBool True)]"

text \<open>\<open>d.update(new)\<close>\<close>

definition dict_update :: "('k \<times> 'v) list \<Rightarrow> ('k \<times> 'v) list \<Rightarrow> ('k \<times> 'v) list" where
  "dict_update d new = fold (\<lambda>(k, v) d'. AList.update k v d') new d"

text \<open>The two statements every handled branch ends with:
  \<open>kwargs['colours'] = cs\<close> and the assignment to \<open>rcParams\<close>.\<close>

definition use_colours ::
  "('c \<Rightarrow> bool) \<Rightarrow> 'c list \<Rightarrow> 'c kwargs \<Rightarrow> 'c rcParams \<Rightarrow>
   pyerr option \<times> 'c kwargs \<times> 'c rcParams" where
  "use_colours valid cs kw rc =
     (let kw1 = AList.update ''colours'' (KList cs) kw
      in case set_prop_cycle valid cs rc of
           Inl e \<Rightarrow> (Some e, kw1, rc)
         | Inr rc1 \<Rightarrow> (None, kw1, rc1))"

text \<open>
  Lines 69 to 91 of \<open>plot_spectral\<close>: the defaults, then the choice of colours by the
  type of \<open>kwargs['cmap']\<close>. \<open>cmap_colors name\<close> stands for
  \<open>plt.cm.get_cmap(name).colors\<close>, which raises for an unknown name and for a colormap
  that has no list of colours. The result is the exception raised (if any), \<open>kwargs\<close>
  and \<open>rcParams\<close> at that point. A \<open>cmap\<close> that is neither \<open>None\<close>, a string nor a list
  falls through the \<open>if\<close>/\<open>elif\<close> chain.
\<close>

definition plot_spectral_colours ::
  "('c \<Rightarrow> bool) \<Rightarrow> (string \<Rightarrow> pyerr + 'c list) \<Rightarrow> 'c kwargs \<Rightarrow> 'c rcParams \<Rightarrow>
   pyerr option \<times> 'c kwargs \<times> 'c rcParams" where
  "plot_spectral_colours valid cmap_colors kwargs0 rc =
     (let kwargs = dict_update prop_defaults kwargs0
      in case map_of kwargs ''cmap'' of
           None \<Rightarrow>
             (case prop_cycle_colours rc of
                Inl e \<Rightarrow> (Some e, kwargs, rc)
              | Inr cs \<Rightarrow> use_colours valid cs kwargs rc)
         | Some KNone \<Rightarrow>
             (case prop_cycle_colours rc of
                Inl e \<Rightarrow> (Some e, kwargs, rc)
              | Inr cs \<Rightarrow> use_colours valid cs kwargs rc)
         | Some (KStr name) \<Rightarrow>
             (case cmap_colors name of
                Inl e \<Rightarrow> (Some e, kwargs, rc)
              | Inr cs \<Rightarrow> use_colours valid cs kwargs rc)
         | Some (KList cs) \<Rightarrow> use_colours valid cs kwargs rc
         | Some v \<Rightarrow> (None, kwargs, rc))"

text \<open>The types of \<open>cmap\<close> the chain has a branch for.\<close>

fun selects_colours :: "'c kwval option \<Rightarrow> bool" where
  "selects_colours None = True"
| "selects_colours (Some KNone) = True"
| "selects_colours (Some (KStr name)) = True"
| "selects_colours (Some (KList cs)) = True"
| "selects_colours (Some v) = False"

section \<open>The whole call of \<open>plot_spectral\<close>\<close>

text \<open>
  After the colour set-up the function makes the figure, reads \<open>kwargs['colours']\<close>,
  draws the dispersion and the density of states and shows or saves the plot. In the
  whole file \<open>rcParams\<close> is written in four places only: the three assignments of the
  set-up and line 257 of \<open>dispersion_plot\<close>, inside the loop over the branches of a
  seed. The call is followed here for the keyword arguments \<open>cmap\<close>, \<open>colours\<close>,
  \<open>plot_bandstructure\<close> and \<open>plot_dos\<close>, the others left at their defaults; \<open>seeds\<close> is
  a list of file names. The decorator \<open>plotting_function\<close> around the function is not
  in the files at hand; this is the function's own body.
\<close>

record 'c arguments =
  cmap :: "'c kwval"
  colours :: "'c kwval option"
  plot_bandstructure :: bool
  plot_dos :: bool

text \<open>The keyword dict of such a call; \<open>colours\<close> is in it when the caller passes it.\<close>

definition kwargs_of :: "'c arguments \<Rightarrow> 'c kwargs" where
  "kwargs_of a =
     [(''cmap'', cmap a), (''plot_bandstructure'', KBool (plot_bandstructure a)),
      (''plot_dos'', KBool (plot_dos a))]
     @ (case colours a of None \<Rightarrow> [] | Some v \<Rightarrow> [(''colours'', v)])"

text \<open>
  Lines 134 to 136 index \<open>kwargs['colours']\<close> (first, last and middle entry): KeyError
  when no colours were chosen, IndexError when there are none, TypeError for a value
  that cannot be indexed. The result is the sequence of colours that
  \<open>cycler('color', kwargs['colours'])\<close> iterates later; for a string these are its
  characters, read as colours by \<open>letter\<close>.
\<close>

definition indexed_colours :: "(char \<Rightarrow> 'c) \<Rightarrow> 'c kwargs \<Rightarrow> pyerr + 'c list" where
  "indexed_colours letter kw =
     (case map_of kw ''colours'' of
        None \<Rightarrow> Inl KeyError
      | Some (KList cs) \<Rightarrow> if cs = [] then Inl IndexError else Inr cs
      | Some (KTuple cs) \<Rightarrow> if cs = [] then Inl IndexError else Inr cs
      | Some (KStr s) \<Rightarrow> if s = [] then Inl IndexError else Inr (map letter s)
      | Some v \<Rightarrow> Inl TypeError)"

text \<open>
  What \<open>dispersion_plot\<close> meets for one seed. Either something raises before the loop
  over the branches (no \<open>.bands\<close> or \<open>.phonon\<close> file, a scraper that fails), or the
  data are read: whether the projected dispersion of this seed was plotted (which sets
  \<open>plotted_pdis\<close> for the rest of the loop over seeds), the number of branches, and the
  exception raised while the lines of a branch are drawn, if any.
\<close>

datatype seed_outcome = Unreadable pyerr | Readable bool nat "pyerr option"

text \<open>
  Everything outside the function that the call depends on: matplotlib's validation of
  colours and its colormaps, the files next to the seeds, and whether the drawing and
  output steps raise. None of these steps writes \<open>rcParams\<close>.
  \<^item> \<open>accepts\<close>: the colours \<open>rcParams\<close> accepts in a colour cycle;
  \<open>colormap_colors name\<close>: \<open>plt.cm.get_cmap(name).colors\<close>; \<open>letter\<close>: a character of a
  string read as a colour;
  \<^item> \<open>dos_files\<close>: line 112, some seed has a density-of-states file;
  \<^item> \<open>subplots\<close>: the exception \<open>plt.subplots\<close> raises, if any;
  \<^item> \<open>seed_outcomes\<close>: one outcome per seed; \<open>labels_outcome\<close>: the library calls of
  lines 270 to 283 of \<open>dispersion_plot\<close>; \<open>dos_outcome\<close>: \<open>dos_plot\<close>; \<open>show_outcome\<close>:
  lines 162 to 182.
\<close>

record 'c environment =
  accepts :: "'c \<Rightarrow> bool"
  colormap_colors :: "string \<Rightarrow> pyerr + 'c list"
  letter :: "char \<Rightarrow> 'c"
  dos_files :: bool
  subplots :: "pyerr option"
  seed_outcomes :: "seed_outcome list"
  labels_outcome :: "pyerr option"
  dos_outcome :: "pyerr option"
  show_outcome :: "pyerr option"

text \<open>
  The loop over the seeds in \<open>dispersion_plot\<close> (lines 203 to 268), with the value of
  \<open>plotted_pdis\<close> so far. For a seed with branches, and unless a projected dispersion
  was plotted, every branch starts with
  \<open>plt.rcParams['axes.prop_cycle'] = cycler('color', kwargs['colours'])\<close>; the colours
  do not change in the loop, so the first assignment decides.
\<close>

fun dispersion_seeds ::
  "('c \<Rightarrow> bool) \<Rightarrow> 'c list \<Rightarrow> bool \<Rightarrow> seed_outcome list \<Rightarrow> 'c rcParams \<Rightarrow>
   pyerr option \<times> 'c rcParams" where
  "dispersion_seeds ok cs pdis [] rc = (None, rc)"
| "dispersion_seeds ok cs pdis (Unreadable e # rest) rc = (Some e, rc)"
| "dispersion_seeds ok cs pdis (Readable p n drawing # rest) rc =
     (if (pdis \<or> p) \<or> n = 0 then dispersion_seeds ok cs (pdis \<or> p) rest rc
      else
        (case set_prop_cycle ok cs rc of
           Inl e \<Rightarrow> (Some e, rc)
         | Inr rc1 \<Rightarrow>
             (case drawing of
                Some e \<Rightarrow> (Some e, rc1)
              | None \<Rightarrow> dispersion_seeds ok cs (pdis \<or> p) rest rc1)))"

text \<open>
  \<open>dispersion_plot\<close>: the loop over the seeds, then the legend, the axes and the path
  labels. The call of \<open>_get_path_labels\<close> in line 283 names \<open>seed\<close>, \<open>dispersion\<close> and
  \<open>path\<close>, which are unbound when there was no seed.
\<close>

definition dispersion_plot :: "'c environment \<Rightarrow> 'c list \<Rightarrow> 'c rcParams \<Rightarrow> pyerr option \<times> 'c rcParams" where
  "dispersion_plot env cs rc =
     (case dispersion_seeds (accepts env) cs False (seed_outcomes env) rc of
        (Some e, rc1) \<Rightarrow> (Some e, rc1)
      | (None, rc1) \<Rightarrow>
          (case labels_outcome env of
             Some e \<Rightarrow> (Some e, rc1)
           | None \<Rightarrow>
               if seed_outcomes env = [] then (Some UnboundLocalError, rc1) else (None, rc1)))"

text \<open>
  \<open>plot_spectral\<close> from its first line to its last: the exception that ends the call
  (if any) and \<open>rcParams\<close> as the call leaves it.
\<close>

definition plot_spectral :: "'c environment \<Rightarrow> 'c arguments \<Rightarrow> 'c rcParams \<Rightarrow> pyerr option \<times> 'c rcParams" where
  "plot_spectral env a rc =
     (case plot_spectral_colours (accepts env) (colormap_colors env) (kwargs_of a) rc of
        (Some e, kw, rc1) \<Rightarrow> (Some e, rc1)
      | (None, kw, rc1) \<Rightarrow>
          (let band = plot_bandstructure a;
               dos = (plot_dos a \<and> dos_files env)
           in case (if band \<or> dos then subplots env else None) of
                Some e \<Rightarrow> (Some e, rc1)
              | None \<Rightarrow>
                  (case indexed_colours (letter env) kw of
                     Inl e \<Rightarrow> (Some e, rc1)
                   | Inr cs \<Rightarrow>
                       (case (if band then dispersion_plot env cs rc1 else (None, rc1)) of
                          (Some e, rc2) \<Rightarrow> (Some e, rc2)
                        | (None, rc2) \<Rightarrow>
                            (case (if dos then dos_outcome env else None) of
                               Some e \<Rightarrow> (Some e, rc2)
                             | None \<Rightarrow> (show_outcome env, rc2))))))"

text \<open>Examples: the colour cycle matplotlib starts with (shortened), one that also
  cycles the line style, a validation and a colormap table that accept everything and
  know nothing, and two environments of a single seed in which the library calls do not
  raise: one with the bands of the seed in one branch, one with a density of states and
  no bands file.\<close>

definition default_rc :: "string rcParams" where
  "default_rc = [(''axes.prop_cycle'', Cycler [(''color'', [''C0'', ''C1''])])]"

definition styled_rc :: "string rcParams" where
  "styled_rc =
     [(''axes.prop_cycle'', Cycler [(''color'', [''C0'', ''C1'']), (''linestyle'', [''-'', ''--''])])]"

definition any_colour :: "string \<Rightarrow> bool" where
  "any_colour c = True"

definition no_cmaps :: "string \<Rightarrow> pyerr + string list" where
  "no_cmaps name = Inl ValueError"

definition letter_colour :: "char \<Rightarrow> string" where
  "letter_colour c = [c]"

definition bands_env :: "string environment" where
  "bands_env =
     \<lparr>accepts = any_colour, colormap_colors = no_cmaps, letter = letter_colour,
      dos_files = False, subplots = None, seed_outcomes = [Readable False 1 None],
      labels_outcome = None, dos_outcome = None, show_outcome = None\<rparr>"

definition dos_env :: "string environment" where
  "dos_env =
     \<lparr>accepts = any_colour, colormap_colors = no_cmaps, letter = letter_colour,
      dos_files = True, subplots = None, seed_outcomes = [Unreadable ExternalError],
      labels_outcome = None, dos_outcome = None, show_outcome = None\<rparr>"

section \<open>Voltage curves (spec, sections 3 and 4.4)\<close>

text \<open>
  The hull and voltage-curve code (\<open>QueryConvexHull\<close> of matador/hull.py) is not among
  the source files; only its tests are. What follows is written from the spec's data
  model and its description of the voltage-curve engine.
\<close>

text \<open>Modelled from the spec: the capacity of a step, a number or the NaN of the
  terminal step (the capacity arrays of \<open>QueryConvexHull\<close> are missing).\<close>

datatype capacity = Cap real | NaN

text \<open>Modelled from the spec: \<open>PhasePoint\<close> of section 3 (composition fractions over
  the basis, formation energy per atom, the structure it comes from).\<close>

record PhasePoint =
  composition :: "real list"
  formation_energy_per_atom :: real
  source_ref :: nat

text \<open>Modelled from the spec: \<open>VoltageStep\<close> of section 3; a \<open>VoltageCurve\<close> is an
  ordered sequence of steps.\<close>

record VoltageStep =
  composition_interval :: "real \<times> real"
  voltage :: real
  capacity_q :: capacity
  phase_boundary_structures :: "nat list"

type_synonym VoltageCurve = "VoltageStep list"

text \<open>Modelled from the spec: the capacity and voltage arrays of a curve, as the tests
  read them (\<open>hull.Q[i]\<close>, \<open>hull.voltages[i]\<close>).\<close>

definition Q_array :: "VoltageCurve \<Rightarrow> capacity list" where
  "Q_array c = map capacity_q c"

definition voltage_array :: "VoltageCurve \<Rightarrow> real list" where
  "voltage_array c = map voltage c"

text \<open>Modelled from the spec: the content of the active element in a point, the
  element given by its place in the basis; compositions are zero-padded.\<close>

definition content :: "nat \<Rightarrow> PhasePoint \<Rightarrow> real" where
  "content a p = (if a < length (composition p) then composition p ! a else 0)"

text \<open>Modelled from the spec: the terminal step of every curve, with voltage 0 and
  capacity NaN.\<close>

definition sentinel :: "real \<Rightarrow> VoltageStep" where
  "sentinel x =
     \<lparr>composition_interval = (x, x), voltage = 0, capacity_q = NaN,
      phase_boundary_structures = []\<rparr>"

text \<open>Modelled from the spec: the walk over adjacent hull vertices of a binary system
  (4.4). The voltage of a tie-line is the negative slope of the formation energy over
  the active-element content; the capacity accumulates the change of content, converted
  by \<open>unit\<close>. Hull vertices have distinct compositions (4.3), so the difference of
  contents is not zero.\<close>

fun tie_line_steps :: "real \<Rightarrow> nat \<Rightarrow> real \<Rightarrow> PhasePoint list \<Rightarrow> VoltageStep list" where
  "tie_line_steps unit a q (p1 # p2 # ps) =
     (let dx = content a p2 - content a p1;
          q' = q + unit * dx
      in \<lparr>composition_interval = (content a p1, content a p2),
           voltage = - (formation_energy_per_atom p2 - formation_energy_per_atom p1) / dx,
           capacity_q = Cap q',
           phase_boundary_structures = [source_ref p1, source_ref p2]\<rparr>
         # tie_line_steps unit a q' (p2 # ps))"
| "tie_line_steps unit a q ps = []"

text \<open>Modelled from the spec: the binary curve, the hull vertices taken by increasing
  active-element content, ended by the sentinel.\<close>

definition binary_curve :: "real \<Rightarrow> nat \<Rightarrow> PhasePoint list \<Rightarrow> VoltageCurve" where
  "binary_curve unit a pts =
     (let ordered = sort_key (content a) pts
      in tie_line_steps unit a 0 ordered
         @ [sentinel (if ordered = [] then 0 else content a (last ordered))])"

text \<open>Modelled from the spec: one region a ternary pathway crosses (4.4): the phases
  at its vertices, the interval of active-element content, the voltage of the plateau
  and the amount of active element exchanged. The search that finds the regions is the
  missing part of \<open>QueryConvexHull\<close>; the spec gives no rule for it.\<close>

record crossing =
  vertices :: "PhasePoint list"
  interval :: "real \<times> real"
  plateau_voltage :: real
  exchanged :: real

text \<open>Modelled from the spec: the steps of one pathway; a single-phase region
  contributes no step.\<close>

fun pathway_steps :: "real \<Rightarrow> real \<Rightarrow> crossing list \<Rightarrow> VoltageStep list" where
  "pathway_steps unit q [] = []"
| "pathway_steps unit q (c # cs) =
     (if length (vertices c) < 2 then pathway_steps unit q cs
      else
        (let q' = q + unit * exchanged c
         in \<lparr>composition_interval = interval c, voltage = plateau_voltage c,
              capacity_q = Cap q',
              phase_boundary_structures = map source_ref (vertices c)\<rparr>
            # pathway_steps unit q' cs))"

text \<open>Modelled from the spec: the curve of one pathway, ended by its own sentinel.\<close>

definition pathway_curve :: "real \<Rightarrow> crossing list \<Rightarrow> VoltageCurve" where
  "pathway_curve unit cs =
     pathway_steps unit 0 cs @ [sentinel (if cs = [] then 0 else snd (interval (last cs)))]"

text \<open>Modelled from the spec: the hull as the voltage-curve engine reads it: the
  element basis and the stable points.\<close>

record Hull =
  basis :: "string list"
  hull_points :: "PhasePoint list"

text \<open>Modelled from the spec: \<open>derive_voltage_curve\<close> of 4.5. A binary hull gives one
  curve; otherwise there is one curve per pathway the search returns. \<open>search\<close> is the
  pathway search, which takes the hull, the active element and the \<open>pathways\<close> flag.\<close>

definition derive_voltage_curve ::
  "real \<Rightarrow> (Hull \<Rightarrow> nat \<Rightarrow> bool \<Rightarrow> crossing list list) \<Rightarrow> Hull \<Rightarrow> nat \<Rightarrow> bool \<Rightarrow>
   VoltageCurve list" where
  "derive_voltage_curve unit search h a pathways =
     (if length (basis h) = 2 then [binary_curve unit a (hull_points h)]
      else map (pathway_curve unit) (search h a pathways))"

text \<open>Modelled from the spec: an example, a binary hull of three stable points.\<close>

definition example_hull :: Hull where
  "example_hull =
     \<lparr>basis = [''Li'', ''P''],
      hull_points =
        [\<lparr>composition = [1, 0], formation_energy_per_atom = 0, source_ref = 0\<rparr>,
         \<lparr>composition = [0, 1], formation_energy_per_atom = 0, source_ref = 1\<rparr>,
         \<lparr>composition = [1 / 2, 1 / 2], formation_energy_per_atom = - 1, source_ref = 2\<rparr>]\<rparr>"

definition no_search :: "Hull \<Rightarrow> nat \<Rightarrow> bool \<Rightarrow> crossing list list" where
  "no_search h a pw = []"

section \<open>What the store keeps and what it changes\<close>

lemma length_update_one: "length (update_one rq ds) = length ds"
  by (induction rq ds rule: update_one.induct) auto

lemma length_fold_update_one: "length (fold update_one rqs ds) = length ds"
  by (induction rqs arbitrary: ds) (auto simp: length_update_one)

lemma update_one_no_match:
  "i < length ds \<Longrightarrow> \<not> matches (ds ! i) q \<Longrightarrow> update_one (UpdateOne q sets) ds ! i = ds ! i"
proof (induction ds arbitrary: i)
  case Nil
  then show ?case by simp
next
  case (Cons d ds)
  then show ?case by (cases i) auto
qed

text \<open>A filter of the mode \<open>'set'\<close> matches no document that has the field.\<close>

lemma set_filter_excludes:
  "map_of d f \<noteq> None \<Longrightarrow> \<not> matches d (AList.update f (Exists False) [(''_id'', Eq i)])"
  by (auto simp: matches_def)

lemma set_request_shape: "set_request f d = Inr rq \<Longrightarrow> is_set_request f rq"
  by (auto simp: set_request_def is_set_request_def split: sum.splits)

lemma collect_all:
  "collect g xs = Inr ys \<Longrightarrow> (\<And>x y. g x = Inr y \<Longrightarrow> P y) \<Longrightarrow> list_all P ys"
  by (induction xs arbitrary: ys) (auto split: sum.splits)

lemma set_requests_keep:
  "list_all (is_set_request f) rqs \<Longrightarrow> i < length ds \<Longrightarrow> map_of (ds ! i) f \<noteq> None \<Longrightarrow>
   fold update_one rqs ds ! i = ds ! i"
proof (induction rqs arbitrary: ds)
  case Nil
  then show ?case by simp
next
  case (Cons rq rqs)
  from Cons.prems(1) obtain j v
    where rq: "rq = UpdateOne (AList.update f (Exists False) [(''_id'', Eq j)]) [(f, v)]"
    by (auto simp: is_set_request_def)
  have same: "update_one rq ds ! i = ds ! i"
    unfolding rq using Cons.prems(2,3) by (intro update_one_no_match set_filter_excludes)
  have "fold update_one rqs (update_one rq ds) ! i = update_one rq ds ! i"
    using Cons.prems same by (intro Cons.IH) (auto simp: length_update_one)
  then show ?case using same by simp
qed

lemma update_docs_length:
  "update_docs r c = Inr c' \<Longrightarrow> length (documents c') = length (documents c)"
  by (auto simp: update_docs_def bulk_write_def length_fold_update_one
      split: sum.splits if_splits)

lemma update_docs_set_keeps:
  assumes "mode r = ''set''" "update_docs r c = Inr c'" "i < length (documents c)"
    "map_of (documents c ! i) (field r) \<noteq> None"
  shows "documents c' ! i = documents c ! i"
proof -
  from assms(1,2) obtain rqs
    where rqs: "collect (set_request (field r)) (diff_docs r) = Inr rqs"
      and bw: "bulk_write rqs c = Inr c'"
    by (auto simp: update_docs_def update_docs_requests_def split: sum.splits)
  have "list_all (is_set_request (field r)) rqs"
    using rqs by (rule collect_all) (rule set_request_shape)
  moreover have "documents c' = fold update_one rqs (documents c)"
    using bw by (auto simp: bulk_write_def split: if_splits)
  ultimately show ?thesis using assms(3,4) by (simp add: set_requests_keep)
qed

text \<open>A filter of the mode \<open>'overwrite'\<close> looks at the identifier alone.\<close>

lemma matches_id: "matches d [(''_id'', Eq i)] = has_id i d"
  by (simp add: matches_def has_id_def)

lemma has_id_apply_set: "f \<noteq> ''_id'' \<Longrightarrow> has_id j (apply_set [(f, v)] d) = has_id j d"
  by (simp add: has_id_def apply_set_def setitem_def update_conv')

lemma apply_set_lookup: "map_of (apply_set [(f, v)] d) f = Some v"
  by (simp add: apply_set_def setitem_def update_conv')

lemma find_update_same:
  "f \<noteq> ''_id'' \<Longrightarrow>
   find (has_id i) (update_one (UpdateOne [(''_id'', Eq i)] [(f, v)]) ds)
     = map_option (apply_set [(f, v)]) (find (has_id i) ds)"
  by (induction ds) (auto simp: matches_id has_id_apply_set)

lemma find_update_other:
  "f \<noteq> ''_id'' \<Longrightarrow> j \<noteq> i \<Longrightarrow>
   find (has_id j) (update_one (UpdateOne [(''_id'', Eq i)] [(f, v)]) ds) = find (has_id j) ds"
proof (induction ds)
  case Nil
  then show ?case by simp
next
  case (Cons d ds)
  have "has_id i d \<Longrightarrow> \<not> has_id j d" using Cons.prems(2) by (auto simp: has_id_def)
  then show ?case using Cons by (auto simp: matches_id has_id_apply_set)
qed

lemma fold_overwrite_other:
  "f \<noteq> ''_id'' \<Longrightarrow> i \<notin> fst ` set ps \<Longrightarrow>
   find (has_id i) (fold update_one (map (overwrite_of f) ps) ds) = find (has_id i) ds"
proof (induction ps arbitrary: ds)
  case Nil
  then show ?case by simp
next
  case (Cons p ps)
  have "fst p \<noteq> i" using Cons.prems(2) by auto
  then have "find (has_id i) (update_one (overwrite_of f p) ds) = find (has_id i) ds"
    using Cons.prems(1) by (simp add: overwrite_of_def find_update_other)
  moreover have "i \<notin> fst ` set ps" using Cons.prems(2) by auto
  ultimately show ?case using Cons.IH [OF Cons.prems(1)] by simp
qed

lemma fold_overwrite_same:
  "f \<noteq> ''_id'' \<Longrightarrow> distinct (map fst ps) \<Longrightarrow> (i, v) \<in> set ps \<Longrightarrow>
   find (has_id i) (fold update_one (map (overwrite_of f) ps) ds)
     = map_option (apply_set [(f, v)]) (find (has_id i) ds)"
proof (induction ps arbitrary: ds)
  case Nil
  then show ?case by simp
next
  case (Cons p ps)
  show ?case
  proof (cases "p = (i, v)")
    case True
    then have "i \<notin> fst ` set ps" using Cons.prems(2) by auto
    then have "find (has_id i)
          (fold update_one (map (overwrite_of f) ps) (update_one (overwrite_of f p) ds))
        = find (has_id i) (update_one (overwrite_of f p) ds)"
      using Cons.prems(1) by (rule fold_overwrite_other [rotated])
    moreover have "update_one (overwrite_of f p) ds
        = update_one (UpdateOne [(''_id'', Eq i)] [(f, v)]) ds"
      using True by (simp add: overwrite_of_def)
    ultimately show ?thesis using Cons.prems(1) by (simp add: find_update_same)
  next
    case False
    then have mem: "(i, v) \<in> set ps" using Cons.prems(3) by auto
    then have "fst p \<noteq> i" using Cons.prems(2) by (auto simp: image_iff)
    then have "find (has_id i) (update_one (overwrite_of f p) ds) = find (has_id i) ds"
      using Cons.prems(1) by (simp add: overwrite_of_def find_update_other)
    moreover have "distinct (map fst ps)" using Cons.prems(2) by simp
    ultimately show ?thesis using Cons.IH [OF Cons.prems(1) _ mem] by simp
  qed
qed

lemma collect_overwrite:
  "collect (overwrite_request f) ds = Inr rqs \<Longrightarrow>
   rqs = map (overwrite_of f) (map (id_and_value f) ds) \<and>
   (\<forall>d \<in> set ds. map_of d ''_id'' \<noteq> None \<and> map_of d f \<noteq> None)"
  by (induction ds arbitrary: rqs)
     (auto simp: overwrite_request_def overwrite_of_def id_and_value_def getitem_def
           split: sum.splits option.splits)

lemma find_has_id_Some: "\<exists>x \<in> set ds. has_id i x \<Longrightarrow> \<exists>y. find (has_id i) ds = Some y"
  by (induction ds) auto

lemma update_docs_overwrite_sets:
  assumes m: "mode r = ''overwrite''" and u: "update_docs r c = Inr c'"
    and f: "field r \<noteq> ''_id''"
    and dist: "distinct (map (\<lambda>d. map_of d ''_id'') (diff_docs r))"
    and d: "d \<in> set (diff_docs r)" and i: "map_of d ''_id'' = Some i"
    and ex: "\<exists>x \<in> set (documents c). has_id i x"
  shows "\<exists>y. find (has_id i) (documents c') = Some y \<and> map_of y (field r) = map_of d (field r)"
proof -
  from m u obtain rqs
    where rqs: "collect (overwrite_request (field r)) (diff_docs r) = Inr rqs"
      and bw: "bulk_write rqs c = Inr c'"
    by (auto simp: update_docs_def update_docs_requests_def split: sum.splits)
  let ?ps = "map (id_and_value (field r)) (diff_docs r)"
  from collect_overwrite [OF rqs] have shape: "rqs = map (overwrite_of (field r)) ?ps"
    and present: "\<forall>d \<in> set (diff_docs r). map_of d ''_id'' \<noteq> None \<and> map_of d (field r) \<noteq> None"
    by auto
  from present d obtain v where v: "map_of d (field r) = Some v" by auto
  have docs: "documents c' = fold update_one rqs (documents c)"
    using bw by (auto simp: bulk_write_def split: if_splits)
  have fsts: "map fst ?ps = map the (map (\<lambda>d. map_of d ''_id'') (diff_docs r))"
    by (simp add: id_and_value_def comp_def)
  have "inj_on the (set (map (\<lambda>d. map_of d ''_id'') (diff_docs r)))"
  proof (rule inj_onI)
    fix a b
    assume "a \<in> set (map (\<lambda>d. map_of d ''_id'') (diff_docs r))"
      and "b \<in> set (map (\<lambda>d. map_of d ''_id'') (diff_docs r))" and "the a = the b"
    moreover from this present have "a \<noteq> None" "b \<noteq> None" by auto
    ultimately show "a = b" by auto
  qed
  with dist have dps: "distinct (map fst ?ps)"
    unfolding fsts by (simp only: distinct_map)
  have mem: "(i, v) \<in> set ?ps"
    using d i v by (force simp: id_and_value_def)
  obtain x where x: "find (has_id i) (documents c) = Some x"
    using find_has_id_Some [OF ex] by auto
  have "find (has_id i) (documents c') = Some (apply_set [(field r, v)] x)"
    unfolding docs shape using fold_overwrite_same [OF f dps mem] x by simp
  then show ?thesis using v by (simp add: apply_set_lookup)
qed

lemma finish_no_write:
  "\<not> (mode r \<in> set [''set'', ''overwrite''] \<and> 0 < changed_count r) \<Longrightarrow> finish r coll = Inr coll"
  by (auto simp: finish_def)

lemmas store_example_defs =
  changed_refiner_def example_store_def bare_doc_def full_doc_def refined_doc_def
  update_docs_def update_docs_requests_def diff_docs_def set_request_def overwrite_request_def
  getitem_def bulk_write_def matches_def apply_set_def setitem_def finish_def has_id_def

lemma update_docs_set_example:
  "update_docs (changed_refiner ''set'') example_store
   = Inr \<lparr>documents = [bare_doc, full_doc],
          bulk_writes = [[UpdateOne [(''_id'', Eq (VInt 2)), (''space_group'', Exists False)]
                                   [(''space_group'', VStr ''Fm-3m'')]]]\<rparr>"
  by (simp add: store_example_defs)

lemma update_docs_overwrite_example:
  "update_docs (changed_refiner ''overwrite'') example_store
   = Inr \<lparr>documents = [bare_doc, refined_doc],
          bulk_writes = [[UpdateOne [(''_id'', Eq (VInt 2))]
                                   [(''space_group'', VStr ''Fm-3m'')]]]\<rparr>"
  by (simp add: store_example_defs)

text \<open>
  Claim C10. In the mode \<open>'set'\<close> the bulk update leaves every stored document that
  already has the target field as it was; in the mode \<open>'overwrite'\<close> the field is set
  on the stored document of every changed document, whether it had the field or not
  (identifiers are unique and the field is not the identifier); \<open>update_docs\<close> is
  reached only in these two modes and with a changed document, so that in the mode
  \<open>'display'\<close> no bulk write is issued.
\<close>

theorem update_docs_respects_mode:
  "(mode r = ''set'' \<longrightarrow>
      (\<forall>c' i. update_docs r c = Inr c' \<and> i < length (documents c) \<and>
              map_of (documents c ! i) (field r) \<noteq> None \<longrightarrow>
         length (documents c') = length (documents c) \<and> documents c' ! i = documents c ! i))
   \<and> (mode r = ''overwrite'' \<longrightarrow>
      (\<forall>c' d i. update_docs r c = Inr c' \<and> field r \<noteq> ''_id'' \<and>
              distinct (map (\<lambda>d. map_of d ''_id'') (diff_docs r)) \<and>
              d \<in> set (diff_docs r) \<and> map_of d ''_id'' = Some i \<and>
              (\<exists>x \<in> set (documents c). has_id i x) \<longrightarrow>
         (\<exists>y. find (has_id i) (documents c') = Some y \<and>
              map_of y (field r) = map_of d (field r))))
   \<and> (\<not> (mode r \<in> set [''set'', ''overwrite''] \<and> 0 < changed_count r) \<longrightarrow>
        finish r coll = Inr coll)
   \<and> (mode r = ''display'' \<longrightarrow> finish r coll = Inr coll)"
proof (intro conjI impI allI)
  fix c' i
  assume "mode r = ''set''"
    and "update_docs r c = Inr c' \<and> i < length (documents c) \<and>
         map_of (documents c ! i) (field r) \<noteq> None"
  then have m: "mode r = ''set''" and u: "update_docs r c = Inr c'"
    and i: "i < length (documents c)" "map_of (documents c ! i) (field r) \<noteq> None"
    by simp_all
  show "length (documents c') = length (documents c)"
    using u by (rule update_docs_length)
  show "documents c' ! i = documents c ! i"
    using m u i by (rule update_docs_set_keeps)
next
  fix c' d i
  assume "mode r = ''overwrite''"
    and "update_docs r c = Inr c' \<and> field r \<noteq> ''_id'' \<and>
         distinct (map (\<lambda>d. map_of d ''_id'') (diff_docs r)) \<and>
         d \<in> set (diff_docs r) \<and> map_of d ''_id'' = Some i \<and>
         (\<exists>x \<in> set (documents c). has_id i x)"
  then show "\<exists>y. find (has_id i) (documents c') = Some y \<and>
      map_of y (field r) = map_of d (field r)"
    by (intro update_docs_overwrite_sets) auto
next
  assume "\<not> (mode r \<in> set [''set'', ''overwrite''] \<and> 0 < changed_count r)"
  then show "finish r coll = Inr coll" by (rule finish_no_write)
next
  assume "mode r = ''display''"
  then show "finish r coll = Inr coll" by (simp add: finish_def)
qed

theorem update_docs_respects_mode_witness:
  "mode (changed_refiner ''set'') = ''set''
   \<and> update_docs (changed_refiner ''set'') example_store
       = Inr \<lparr>documents = [bare_doc, full_doc],
              bulk_writes = [[UpdateOne [(''_id'', Eq (VInt 2)), (''space_group'', Exists False)]
                                       [(''space_group'', VStr ''Fm-3m'')]]]\<rparr>
   \<and> map_of (documents example_store ! 1) (field (changed_refiner ''set'')) = Some (VStr ''P1'')
   \<and> [bare_doc, full_doc] ! 1 = documents example_store ! 1
   \<and> mode (changed_refiner ''overwrite'') = ''overwrite''
   \<and> update_docs (changed_refiner ''overwrite'') example_store
       = Inr \<lparr>documents = [bare_doc, refined_doc],
              bulk_writes = [[UpdateOne [(''_id'', Eq (VInt 2))]
                                       [(''space_group'', VStr ''Fm-3m'')]]]\<rparr>
   \<and> refined_doc \<in> set (diff_docs (changed_refiner ''overwrite''))
   \<and> (\<exists>y. find (has_id (VInt 2)) [bare_doc, refined_doc] = Some y \<and>
          map_of y ''space_group'' = Some (VStr ''Fm-3m''))
   \<and> mode (changed_refiner ''display'') = ''display''
   \<and> finish (changed_refiner ''display'') (Some example_store) = Inr (Some example_store)"
proof -
  let ?set = "changed_refiner ''set''" and ?over = "changed_refiner ''overwrite''"
    and ?disp = "changed_refiner ''display''"
  note s = update_docs_set_example and ovw = update_docs_overwrite_example
  have ms: "mode ?set = ''set''" and mo: "mode ?over = ''overwrite''"
    and md: "mode ?disp = ''display''"
    by (simp_all add: changed_refiner_def)
  have has: "map_of (documents example_store ! 1) (field ?set) = Some (VStr ''P1'')"
    by (simp add: store_example_defs)
  have kept: "[bare_doc, full_doc] ! 1 = documents example_store ! 1"
    using update_docs_respects_mode [of ?set example_store None] ms s has
    by (simp add: example_store_def)
  have mem: "refined_doc \<in> set (diff_docs ?over)"
    by (simp add: changed_refiner_def diff_docs_def)
  have pre: "field ?over \<noteq> ''_id''"
    "distinct (map (\<lambda>d. map_of d ''_id'') (diff_docs ?over))"
    "map_of refined_doc ''_id'' = Some (VInt 2)"
    "\<exists>x \<in> set (documents example_store). has_id (VInt 2) x"
    by (simp_all add: store_example_defs)
  have written: "\<exists>y. find (has_id (VInt 2)) [bare_doc, refined_doc] = Some y \<and>
      map_of y ''space_group'' = Some (VStr ''Fm-3m'')"
  proof -
    from update_docs_respects_mode [of ?over example_store None] mo
    have "\<forall>c' d i. update_docs ?over example_store = Inr c' \<and> field ?over \<noteq> ''_id'' \<and>
              distinct (map (\<lambda>d. map_of d ''_id'') (diff_docs ?over)) \<and>
              d \<in> set (diff_docs ?over) \<and> map_of d ''_id'' = Some i \<and>
              (\<exists>x \<in> set (documents example_store). has_id i x) \<longrightarrow>
         (\<exists>y. find (has_id i) (documents c') = Some y \<and>
              map_of y (field ?over) = map_of d (field ?over))"
      by blast
    from this [rule_format, of _ refined_doc "VInt 2", OF conjI [OF ovw conjI [OF pre(1)
          conjI [OF pre(2) conjI [OF mem conjI [OF pre(3) pre(4)]]]]]]
    show ?thesis by (simp add: changed_refiner_def refined_doc_def)
  qed
  have none: "finish ?disp (Some example_store) = Inr (Some example_store)"
    using update_docs_respects_mode [of ?disp example_store "Some example_store"] md by blast
  from ms s has kept mo ovw mem written md none show ?thesis by blast
qed

section \<open>Failures of single documents in \<open>Refiner.symmetry\<close>\<close>

lemma symmetry_try_raises:
  "(fst (symmetry_try sp ind d r) \<noteq> None) = try_raises sp (mode r) d"
  by (auto simp: symmetry_try_def try_raises_def Let_def split: sum.splits)

lemma symmetry_try_frame:
  "symmetry_try sp ind d r = (e, r1) \<Longrightarrow>
   mode r1 = mode r \<and> debug r1 = debug r \<and> failed_count r1 = failed_count r \<and>
   field r1 = field r \<and> length (cursor r1) = length (cursor r)"
  by (auto simp: symmetry_try_def Let_def split: sum.splits if_splits)

text \<open>Outside the mode \<open>'display'\<close> a document whose \<open>try\<close> body raises leaves no trace
  but the failure count: it is neither counted as changed nor kept in \<open>diff_cursor\<close>.\<close>

lemma symmetry_try_raise_keeps:
  "symmetry_try sp ind d r = (Some e, r1) \<Longrightarrow> mode r \<noteq> ''display'' \<Longrightarrow> r1 = r"
  by (auto simp: symmetry_try_def Let_def split: sum.splits if_splits)

lemma symmetry_except_no_debug:
  "\<not> debug r \<Longrightarrow> symmetry_except d r = (None, r\<lparr>failed_count := failed_count r + 1\<rparr>)"
  by (simp add: symmetry_except_def)

text \<open>Without \<open>debug\<close> the loop always reaches its end, and the failure count grows by
  the number of documents whose \<open>try\<close> body raised.\<close>

lemma symmetry_loop_no_debug:
  "\<not> debug r \<Longrightarrow>
   \<exists>r'. symmetry_loop sp xs r = (None, r') \<and>
        failed_count r' = failed_count r + length (filter (try_raises sp (mode r)) (map snd xs))
        \<and> mode r' = mode r \<and> debug r' = debug r"
proof (induction xs arbitrary: r)
  case Nil
  then show ?case by simp
next
  case (Cons x xs)
  obtain ind d where x: "x = (ind, d)" by (cases x)
  obtain e r1 where t: "symmetry_try sp ind d r = (e, r1)" by (cases "symmetry_try sp ind d r")
  note fr = symmetry_try_frame [OF t]
  have raises: "(e \<noteq> None) = try_raises sp (mode r) d"
    using symmetry_try_raises [of sp ind d r] t by simp
  show ?case
  proof (cases e)
    case None
    from fr Cons.prems have "\<not> debug r1" by simp
    from Cons.IH [OF this] obtain r' where
      "symmetry_loop sp xs r1 = (None, r')"
      "failed_count r' = failed_count r1 + length (filter (try_raises sp (mode r1)) (map snd xs))"
      "mode r' = mode r1" "debug r' = debug r1" by blast
    then show ?thesis using None t fr raises x by simp
  next
    case (Some err)
    let ?r2 = "r1\<lparr>failed_count := failed_count r1 + 1\<rparr>"
    from fr Cons.prems have nd: "\<not> debug r1" by simp
    then have ex: "symmetry_except d r1 = (None, ?r2)" by (rule symmetry_except_no_debug)
    from nd have "\<not> debug ?r2" by simp
    from Cons.IH [OF this] obtain r' where
      "symmetry_loop sp xs ?r2 = (None, r')"
      "failed_count r' = failed_count ?r2 + length (filter (try_raises sp (mode ?r2)) (map snd xs))"
      "mode r' = mode ?r2" "debug r' = debug ?r2" by blast
    then show ?thesis using Some t fr raises x ex by simp
  qed
qed

lemmas symmetry_example_defs =
  symmetry_def symmetry_try_def symmetry_except_def needs_cell_def failure_message_def
  text_id_label_def getitem_def setitem_def example_refiner_def bare_doc_def full_doc_def
  refined_doc_def

text \<open>The batch of the two example documents without \<open>debug\<close>: the first fails and is
  counted, the second is refined.\<close>

lemma symmetry_isolates_without_debug:
  "symmetry needs_cell (example_refiner ''overwrite'' False)
   = (None, \<lparr>cursor = [bare_doc, refined_doc], diff_cursor = [1], mode = ''overwrite'',
              changed_count = 1, failed_count = 1, debug = False, field = []\<rparr>)"
  by (simp add: symmetry_example_defs)

text \<open>
  Claim C6, at a failing input. With \<open>debug\<close> set, a document that has no \<open>text_id\<close>
  and for which the \<open>try\<close> body raises makes the handler raise in its turn
  (\<open>doc['text_id']\<close> in the failure message): \<open>symmetry\<close> ends with KeyError after the
  first document, the second document is never looked at, and \<open>__init__\<close> ends with
  the same error before it prints the counts.
\<close>

theorem symmetry_debug_aborts_batch:
  "symmetry needs_cell (example_refiner ''overwrite'' True)
     = (Some KeyError,
        \<lparr>cursor = [bare_doc, full_doc], diff_cursor = [], mode = ''overwrite'',
         changed_count = 0, failed_count = 1, debug = True, field = []\<rparr>)
   \<and> Refiner_init needs_cell others [bare_doc, full_doc] (Some example_store) (Some ''spg'')
       ''overwrite'' True = Inl KeyError"
  by (simp add: symmetry_example_defs Refiner_init_def check_args_def possible_modes_def
      possible_tasks_def task_spg_def example_store_def)

text \<open>In the mode \<open>'display'\<close> the line that prints a changed document raises for a
  document without \<open>text_id\<close>, after the document has been counted as changed and
  appended: it ends up both changed and failed.\<close>

lemma symmetry_display_failed_and_changed:
  "symmetry (\<lambda>d. Inr ''Fm-3m'')
     \<lparr>cursor = [bare_doc], diff_cursor = [], mode = ''display'', changed_count = 0,
      failed_count = 0, debug = False, field = []\<rparr>
   = (None,
     \<lparr>cursor = [bare_doc], diff_cursor = [0], mode = ''display'', changed_count = 1,
      failed_count = 1, debug = False, field = []\<rparr>)"
  by (simp add: symmetry_example_defs)

section \<open>A mode other than \<open>'set'\<close> and \<open>'overwrite'\<close> writes nothing\<close>

lemma symmetry_except_mode: "symmetry_except d r = (e, r1) \<Longrightarrow> mode r1 = mode r"
  by (auto simp: symmetry_except_def Let_def split: if_splits sum.splits)

lemma symmetry_loop_mode: "symmetry_loop sp xs r = (e, r') \<Longrightarrow> mode r' = mode r"
proof (induction xs arbitrary: r)
  case Nil
  then show ?case by simp
next
  case (Cons x xs)
  obtain ind d where x: "x = (ind, d)" by (cases x)
  obtain e1 r1 where t: "symmetry_try sp ind d r = (e1, r1)" by (cases "symmetry_try sp ind d r")
  have m1: "mode r1 = mode r" using symmetry_try_frame [OF t] by simp
  show ?case
  proof (cases e1)
    case None
    then have "symmetry_loop sp xs r1 = (e, r')" using Cons.prems x t by simp
    from Cons.IH [OF this] m1 show ?thesis by simp
  next
    case (Some err)
    obtain e2 r2 where h: "symmetry_except d r1 = (e2, r2)" by (cases "symmetry_except d r1")
    have m2: "mode r2 = mode r1" using symmetry_except_mode [OF h] .
    show ?thesis
    proof (cases e2)
      case None
      then have "symmetry_loop sp xs r2 = (e, r')" using Cons.prems x t Some h by simp
      from Cons.IH [OF this] m1 m2 show ?thesis by simp
    next
      case (Some err2)
      then have "r' = r2" using Cons.prems x t \<open>e1 = Some err\<close> h by simp
      then show ?thesis using m1 m2 by simp
    qed
  qed
qed

lemma check_args_mode:
  "check_args coll task m = Inr m' \<Longrightarrow>
   m' = (if m \<notin> set possible_modes then ''display'' else m)"
  by (auto simp: check_args_def Let_def split: if_splits option.splits)

text \<open>The space-group task as a whole: called with \<open>'display'\<close>, or with a mode that is
  not understood, \<open>__init__\<close> hands the collection back as it got it.\<close>

lemma Refiner_init_spg_no_write:
  assumes "Refiner_init sp others cur coll (Some t) m dbg = Inr (r, rep, coll')"
    and "t = ''spg'' \<or> t = ''sym''" and "m \<noteq> ''set''" and "m \<noteq> ''overwrite''"
  shows "coll' = coll"
proof -
  from assms(1) obtain m' where ca: "check_args coll (Some t) m = Inr m'"
    by (auto simp: Refiner_init_def split: sum.splits)
  from check_args_mode [OF ca] assms(3,4) have m': "m' \<noteq> ''set''" "m' \<noteq> ''overwrite''"
    by (auto split: if_splits)
  let ?r0 = "\<lparr>cursor = cur, diff_cursor = [], mode = m', changed_count = 0,
              failed_count = 0, debug = dbg, field = []\<rparr>"
  from assms(1,2) ca obtain r1 where run: "task_spg sp ?r0 = (None, r1)"
    and fin: "finish r1 coll = Inr coll'"
    by (auto simp: Refiner_init_def Let_def split: sum.splits prod.splits option.splits)
  from run have "mode r1 = m'"
    by (auto simp: task_spg_def symmetry_def split: prod.splits option.splits
        dest!: symmetry_loop_mode)
  with m' fin show ?thesis by (simp add: finish_def)
qed

section \<open>The colour cycle in \<open>rcParams\<close>\<close>

lemma use_colours_ok:
  "use_colours valid cs kw rc = (None, kw', rc') \<Longrightarrow>
   map_of kw' ''colours'' = Some (KList cs) \<and>
   rc' = AList.update ''axes.prop_cycle'' (cycler ''color'' cs) rc \<and>
   prop_cycle_colours rc' = Inr cs \<and> list_all valid cs"
  by (auto simp: use_colours_def Let_def set_prop_cycle_def update_conv' prop_cycle_colours_def
      cycler_def split: sum.splits if_splits)

lemma use_colours_raise: "use_colours valid cs kw rc = (Some e, kw', rc') \<Longrightarrow> rc' = rc"
  by (auto simp: use_colours_def Let_def split: sum.splits)

text \<open>A call that raises in the colour set-up has not touched \<open>rcParams\<close>.\<close>

lemma plot_spectral_colours_raise:
  "plot_spectral_colours valid cmap_colors kw rc = (Some e, kw', rc') \<Longrightarrow> rc' = rc"
  by (auto simp: plot_spectral_colours_def Let_def split: sum.splits option.splits kwval.splits
      dest: use_colours_raise)

text \<open>What a set-up that completes has done, by the type of \<open>cmap\<close>: the three
  handled types store and assign the colours they stand for; any other type leaves
  \<open>kwargs\<close> and \<open>rcParams\<close> as they were.\<close>

lemma plot_spectral_colours_selected:
  assumes "plot_spectral_colours valid cmap_colors kw rc = (None, kw', rc')"
    and "map_of (dict_update prop_defaults kw) ''cmap'' = Some v"
  shows "case v of
           KNone \<Rightarrow> \<exists>cs. prop_cycle_colours rc = Inr cs \<and>
                      map_of kw' ''colours'' = Some (KList cs) \<and>
                      rc' = AList.update ''axes.prop_cycle'' (cycler ''color'' cs) rc
         | KStr name \<Rightarrow> \<exists>cs. cmap_colors name = Inr cs \<and>
                      map_of kw' ''colours'' = Some (KList cs) \<and>
                      rc' = AList.update ''axes.prop_cycle'' (cycler ''color'' cs) rc
         | KList cs \<Rightarrow> map_of kw' ''colours'' = Some (KList cs) \<and>
                      rc' = AList.update ''axes.prop_cycle'' (cycler ''color'' cs) rc
         | _ \<Rightarrow> rc' = rc \<and> kw' = dict_update prop_defaults kw"
  using assms
  by (cases v)
     (auto simp: plot_spectral_colours_def Let_def split: sum.splits dest: use_colours_ok)

lemmas colour_example_defs =
  plot_spectral_colours_def dict_update_def prop_defaults_def use_colours_def
  set_prop_cycle_def cycler_def prop_cycle_colours_def default_rc_def styled_rc_def
  any_colour_def no_cmaps_def Let_def

lemma kwargs_cmap: "map_of (dict_update prop_defaults (kwargs_of a)) ''cmap'' = Some (cmap a)"
  by (cases "colours a") (simp_all add: kwargs_of_def dict_update_def prop_defaults_def)

lemma kwargs_colours: "map_of (dict_update prop_defaults (kwargs_of a)) ''colours'' = colours a"
  by (cases "colours a") (simp_all add: kwargs_of_def dict_update_def prop_defaults_def)

text \<open>The loop over the seeds leaves \<open>rcParams\<close> as it was or with the cycle of the
  colours it was given.\<close>

lemma dispersion_seeds_rc:
  "dispersion_seeds ok cs pdis outs rc = (e, rc') \<Longrightarrow>
   rc' = rc \<or> rc' = AList.update ''axes.prop_cycle'' (cycler ''color'' cs) rc"
proof (induction ok cs pdis outs rc rule: dispersion_seeds.induct)
  case (1 ok cs pdis rc)
  then show ?case by simp
next
  case (2 ok cs pdis e rest rc)
  then show ?case by simp
next
  case (3 ok cs pdis p n drawing rest rc)
  show ?case
  proof (cases "(pdis \<or> p) \<or> n = 0")
    case True
    with 3 show ?thesis by simp
  next
    case False
    show ?thesis
    proof (cases "set_prop_cycle ok cs rc")
      case (Inl err)
      with False 3 show ?thesis by simp
    next
      case (Inr rc1)
      then have rc1: "rc1 = AList.update ''axes.prop_cycle'' (cycler ''color'' cs) rc"
        by (auto simp: set_prop_cycle_def split: if_splits)
      show ?thesis
      proof (cases drawing)
        case None
        with False Inr 3 have "rc' = rc1 \<or>
            rc' = AList.update ''axes.prop_cycle'' (cycler ''color'' cs) rc1"
          by simp
        then show ?thesis by (auto simp: rc1)
      next
        case (Some err)
        with False Inr 3 rc1 show ?thesis by simp
      qed
    qed
  qed
qed

lemma dispersion_plot_rc:
  "dispersion_plot env cs rc = (e, rc') \<Longrightarrow>
   rc' = rc \<or> rc' = AList.update ''axes.prop_cycle'' (cycler ''color'' cs) rc"
  by (auto simp: dispersion_plot_def split: prod.splits option.splits if_splits
      dest: dispersion_seeds_rc)

text \<open>After the set-up the call changes \<open>rcParams\<close> only by assigning the colours of
  \<open>kwargs['colours']\<close> again.\<close>

lemma plot_spectral_after_setup:
  assumes "plot_spectral env a rc = (e, rc')"
  shows "\<exists>e1 kw rc1.
           plot_spectral_colours (accepts env) (colormap_colors env) (kwargs_of a) rc = (e1, kw, rc1) \<and>
           (rc' = rc1 \<or>
            (e1 = None \<and> (\<exists>cs. indexed_colours (letter env) kw = Inr cs \<and>
               rc' = AList.update ''axes.prop_cycle'' (cycler ''color'' cs) rc1)))"
proof -
  obtain e1 kw rc1
    where su: "plot_spectral_colours (accepts env) (colormap_colors env) (kwargs_of a) rc
        = (e1, kw, rc1)"
    by (metis prod_cases3)
  show ?thesis
  proof (cases e1)
    case (Some err)
    with su assms show ?thesis by (simp add: plot_spectral_def)
  next
    case None
    show ?thesis
    proof (cases "indexed_colours (letter env) kw")
      case (Inl err)
      with None su assms show ?thesis
        by (auto simp: plot_spectral_def Let_def split: option.splits)
    next
      case (Inr cs)
      with None su assms have "rc' = rc1 \<or>
          rc' = AList.update ''axes.prop_cycle'' (cycler ''color'' cs) rc1"
        by (auto simp: plot_spectral_def Let_def split: option.splits prod.splits if_splits
            dest: dispersion_plot_rc)
      with None su Inr show ?thesis by auto
    qed
  qed
qed

text \<open>
  A call that returns, with a \<open>cmap\<close> of one of the three handled types, leaves in
  \<open>rcParams\<close> the cycle of exactly the colours that \<open>cmap\<close> stands for: those of the
  cycle before the call, those of the named colormap, or those of the list.
\<close>

lemma plot_spectral_assigns:
  assumes run: "plot_spectral env a rc = (None, rc')"
  shows "case cmap a of
           KNone \<Rightarrow> \<exists>cs. prop_cycle_colours rc = Inr cs \<and>
                      rc' = AList.update ''axes.prop_cycle'' (cycler ''color'' cs) rc
         | KStr name \<Rightarrow> \<exists>cs. colormap_colors env name = Inr cs \<and>
                      rc' = AList.update ''axes.prop_cycle'' (cycler ''color'' cs) rc
         | KList cs \<Rightarrow> rc' = AList.update ''axes.prop_cycle'' (cycler ''color'' cs) rc
         | _ \<Rightarrow> True"
proof -
  from plot_spectral_after_setup [OF run] obtain e1 kw rc1
    where su: "plot_spectral_colours (accepts env) (colormap_colors env) (kwargs_of a) rc
        = (e1, kw, rc1)"
      and after: "rc' = rc1 \<or>
        (e1 = None \<and> (\<exists>cs. indexed_colours (letter env) kw = Inr cs \<and>
           rc' = AList.update ''axes.prop_cycle'' (cycler ''color'' cs) rc1))"
    by blast
  have e1: "e1 = None"
    using run su by (cases e1) (simp_all add: plot_spectral_def)
  note sel = plot_spectral_colours_selected [OF su [unfolded e1] kwargs_cmap]
  have again: "\<And>cs. map_of kw ''colours'' = Some (KList cs) \<Longrightarrow>
      rc1 = AList.update ''axes.prop_cycle'' (cycler ''color'' cs) rc \<Longrightarrow>
      rc' = AList.update ''axes.prop_cycle'' (cycler ''color'' cs) rc"
    using after by (auto simp: indexed_colours_def update_last split: if_splits)
  show ?thesis
    using sel again by (cases "cmap a") auto
qed

text \<open>
  For a \<open>cmap\<close> of any other type, and a caller that passes no colours of its own, the
  call never returns and never writes \<open>rcParams\<close>, whatever the files and the library
  do: it ends with an exception, at line 134 at the latest.
\<close>

lemma plot_spectral_unhandled_cmap:
  assumes "\<not> selects_colours (Some v)"
  shows "\<exists>e. plot_spectral env
            \<lparr>cmap = v, colours = None, plot_bandstructure = b, plot_dos = d\<rparr> rc
          = (Some e, rc)"
proof -
  let ?a = "\<lparr>cmap = v, colours = None, plot_bandstructure = b, plot_dos = d\<rparr>"
  have kw: "kwargs_of ?a
      = [(''cmap'', v), (''plot_bandstructure'', KBool b), (''plot_dos'', KBool d)]"
    by (simp add: kwargs_of_def)
  have su: "plot_spectral_colours (accepts env) (colormap_colors env) (kwargs_of ?a) rc
      = (None, dict_update prop_defaults (kwargs_of ?a), rc)"
    using assms unfolding kw
    by (cases v) (simp_all add: plot_spectral_colours_def dict_update_def prop_defaults_def)
  have none: "indexed_colours (letter env) (dict_update prop_defaults (kwargs_of ?a))
      = Inl KeyError"
    using kwargs_colours [of ?a] by (simp add: indexed_colours_def)
  have "plot_spectral env ?a rc
      = (case (if b \<or> (d \<and> dos_files env) then subplots env else None) of
           Some e \<Rightarrow> (Some e, rc) | None \<Rightarrow> (Some KeyError, rc))"
    unfolding plot_spectral_def su
    by (simp only: none Let_def prod.case option.case sum.case) simp
  then show ?thesis
    by (cases "if b \<or> (d \<and> dos_files env) then subplots env else None") simp_all
qed

lemmas call_example_defs =
  plot_spectral_def kwargs_of_def indexed_colours_def dispersion_plot_def bands_env_def
  dos_env_def letter_colour_def

text \<open>
  Claim C9, at a failing input. Called with a tuple of colours as \<open>cmap\<close>,
  \<open>plot_spectral\<close> chooses no colours and assigns nothing to \<open>rcParams\<close>: the
  \<open>if\<close>/\<open>elif\<close> chain has no branch for it, and the call ends with KeyError at
  \<open>kwargs['colours'][0]\<close>, the shared setting being what it was. The same colours
  given as a list are assigned, and the call returns.
\<close>

theorem plot_spectral_tuple_cmap_raises:
  "plot_spectral bands_env
      \<lparr>cmap = KTuple [''red'', ''blue''], colours = None, plot_bandstructure = True,
       plot_dos = True\<rparr> styled_rc
     = (Some KeyError, styled_rc)
   \<and> plot_spectral bands_env
      \<lparr>cmap = KList [''red'', ''blue''], colours = None, plot_bandstructure = True,
       plot_dos = True\<rparr> styled_rc
     = (None, [(''axes.prop_cycle'', Cycler [(''color'', [''red'', ''blue''])])])"
  by (simp add: call_example_defs colour_example_defs)

text \<open>When the caller passes colours of its own together with such a \<open>cmap\<close>, they reach
  \<open>rcParams\<close> only through \<open>dispersion_plot\<close>: with bands to draw they are assigned at
  line 257; with a density of states alone the call returns without any assignment.\<close>

lemma plot_spectral_own_colours_bands:
  "plot_spectral bands_env
      \<lparr>cmap = KTuple [''red'', ''blue''], colours = Some (KList [''green'']),
       plot_bandstructure = True, plot_dos = True\<rparr> styled_rc
   = (None, [(''axes.prop_cycle'', Cycler [(''color'', [''green''])])])"
  by (simp add: call_example_defs colour_example_defs)

lemma plot_spectral_own_colours_dos:
  "plot_spectral dos_env
      \<lparr>cmap = KTuple [''red'', ''blue''], colours = Some (KList [''green'']),
       plot_bandstructure = False, plot_dos = True\<rparr> styled_rc
   = (None, styled_rc)"
  by (simp add: call_example_defs colour_example_defs)

text \<open>With the default \<open>cmap\<close> the colours of the current cycle are read and assigned
  back alone: a cycle that also set the line style loses it for every later plot.\<close>

lemma plot_spectral_default_cmap_example:
  "plot_spectral bands_env
      \<lparr>cmap = KNone, colours = None, plot_bandstructure = True, plot_dos = True\<rparr> styled_rc
   = (None, [(''axes.prop_cycle'', Cycler [(''color'', [''C0'', ''C1''])])])"
  by (simp add: call_example_defs colour_example_defs)

section \<open>The end of every voltage curve\<close>

lemma curve_shape:
  "c \<in> set (derive_voltage_curve unit search h a pw) \<Longrightarrow> \<exists>steps x. c = steps @ [sentinel x]"
  by (auto simp: derive_voltage_curve_def binary_curve_def pathway_curve_def Let_def
      split: if_splits)

text \<open>
  Claim C1. Every curve that the derivation returns, for a binary hull and for each
  pathway of a larger one, has capacity and voltage arrays of the same length, NaN as
  its last capacity and 0 as its last voltage.
\<close>

theorem voltage_curve_sentinel:
  assumes "c \<in> set (derive_voltage_curve unit search h a pw)"
  shows "length (Q_array c) = length (voltage_array c) \<and> last (Q_array c) = NaN
         \<and> last (voltage_array c) = 0"
proof -
  from curve_shape [OF assms] obtain steps x where "c = steps @ [sentinel x]" by blast
  then show ?thesis by (simp add: Q_array_def voltage_array_def sentinel_def)
qed

theorem voltage_curve_sentinel_witness:
  "binary_curve 2 0 (hull_points example_hull)
     \<in> set (derive_voltage_curve 2 no_search example_hull 0 False)
   \<and> voltage_array (binary_curve 2 0 (hull_points example_hull)) = [2, - 2, 0]
   \<and> Q_array (binary_curve 2 0 (hull_points example_hull)) = [Cap 1, Cap 2, NaN]
   \<and> length (Q_array (binary_curve 2 0 (hull_points example_hull)))
       = length (voltage_array (binary_curve 2 0 (hull_points example_hull)))
   \<and> last (Q_array (binary_curve 2 0 (hull_points example_hull))) = NaN
   \<and> last (voltage_array (binary_curve 2 0 (hull_points example_hull))) = 0"
proof -
  have mem: "binary_curve 2 0 (hull_points example_hull)
      \<in> set (derive_voltage_curve 2 no_search example_hull 0 False)"
    by (simp add: derive_voltage_curve_def example_hull_def)
  have v: "voltage_array (binary_curve 2 0 (hull_points example_hull)) = [2, - 2, 0]"
    by (simp add: binary_curve_def example_hull_def content_def voltage_array_def
        sentinel_def Let_def)
  have q: "Q_array (binary_curve 2 0 (hull_points example_hull)) = [Cap 1, Cap 2, NaN]"
    by (simp add: binary_curve_def example_hull_def content_def Q_array_def sentinel_def
        Let_def)
  from voltage_curve_sentinel [OF mem] mem v q show ?thesis by blast
qed

end
